theory Spec2Isabelle
  imports Complex_Main "HOL-Library.AList"
begin

section \<open>The contact-form mail relay (email-api)\<close>

text \<open>
  A shallow embedding of the relay's request pipeline: the fixed-window rate limiter,
  the body validator, the CORS policy, the mail builder, the request handler and the
  configuration loader. JavaScript numbers that hold counters and millisecond
  timestamps are integers here; strings are lists of characters, a character being a
  code unit up to \<open>0xFF\<close> (what the value of an HTTP header can hold); \<open>Date.now()\<close>
  is a parameter of the functions that read the clock.
\<close>

subsection \<open>Rate limiter (index.ts)\<close>

record RateLimitEntry =
  count :: int
  resetAt :: int

type_synonym RateLimitMap = "string \<rightharpoonup> RateLimitEntry"

definition RATE_LIMIT :: int where
  "RATE_LIMIT = 5"

definition RATE_WINDOW_MS :: int where
  "RATE_WINDOW_MS = 60000"

text \<open>
  \<open>isRateLimited(ip)\<close>: the result is \<open>True\<close> when the call is rejected. The map is
  the module-level \<open>rateLimitMap\<close>; \<open>entry.count++\<close> mutates the stored object, which
  is the update of the map at \<open>ip\<close>.
\<close>

definition isRateLimited :: "int \<Rightarrow> string \<Rightarrow> RateLimitMap \<Rightarrow> bool \<times> RateLimitMap" where
  "isRateLimited now ip m =
     (case m ip of
        None \<Rightarrow> (False, m(ip \<mapsto> \<lparr>count = 1, resetAt = now + RATE_WINDOW_MS\<rparr>))
      | Some entry \<Rightarrow>
          if now > resetAt entry
          then (False, m(ip \<mapsto> \<lparr>count = 1, resetAt = now + RATE_WINDOW_MS\<rparr>))
          else (count entry + 1 > RATE_LIMIT, m(ip \<mapsto> entry\<lparr>count := count entry + 1\<rparr>)))"

text \<open>Successive calls for one client key, at the given clock readings, in order.\<close>

fun checks :: "string \<Rightarrow> int list \<Rightarrow> RateLimitMap \<Rightarrow> bool list \<times> RateLimitMap" where
  "checks ip [] m = ([], m)"
| "checks ip (t # ts) m =
     (case isRateLimited t ip m of
        (r, m') \<Rightarrow> (case checks ip ts m' of (rs, m'') \<Rightarrow> (r # rs, m'')))"

subsection \<open>Parsed JSON values and the JavaScript operators applied to them\<close>

text \<open>
  A value as \<open>JSON.parse\<close> or \<open>req.json()\<close> returns it. An object is the list of
  its entries in the order of \<open>Object.entries\<close> (its keys are distinct). The result of
  a property read is a \<open>json option\<close>, \<open>None\<close> being \<open>undefined\<close>. Numbers are
  rationals: only their being zero is ever inspected.
\<close>

datatype json =
  JNull
| JBool bool
| JNum rat
| JStr string
| JArr "json list"
| JObj "(string \<times> json) list"

datatype jstype = TUndefined | TObject | TBoolean | TNumber | TString

fun typeof :: "json option \<Rightarrow> jstype" where
  "typeof None = TUndefined"
| "typeof (Some JNull) = TObject"
| "typeof (Some (JBool b)) = TBoolean"
| "typeof (Some (JNum n)) = TNumber"
| "typeof (Some (JStr s)) = TString"
| "typeof (Some (JArr xs)) = TObject"
| "typeof (Some (JObj kvs)) = TObject"

text \<open>Truthiness: what \<open>!v\<close>, \<open>v && \<dots>\<close> and \<open>v ? \<dots>\<close> test.\<close>

fun truthy :: "json option \<Rightarrow> bool" where
  "truthy None = False"
| "truthy (Some JNull) = False"
| "truthy (Some (JBool b)) = b"
| "truthy (Some (JNum n)) = (n \<noteq> 0)"
| "truthy (Some (JStr s)) = (s \<noteq> [])"
| "truthy (Some (JArr xs)) = True"
| "truthy (Some (JObj kvs)) = True"

text \<open>
  \<open>v.k\<close> for a value \<open>v\<close> that is not \<open>null\<close>, for the property names this program
  reads (none is an array index, \<open>length\<close> or an inherited property): an object
  gives its entry, anything else \<open>undefined\<close>.
\<close>

fun getprop :: "json \<Rightarrow> string \<Rightarrow> json option" where
  "getprop (JObj kvs) k = map_of kvs k"
| "getprop v k = None"

text \<open>The characters of a value already known to be a string.\<close>

fun str_of :: "json option \<Rightarrow> string" where
  "str_of (Some (JStr s)) = s"
| "str_of v = []"

text \<open>\<open>s.includes(c)\<close> for a one-character search string.\<close>

definition str_includes :: "string \<Rightarrow> char \<Rightarrow> bool" where
  "str_includes s c = (c \<in> set s)"

subsection \<open>Validator (index.ts)\<close>

definition validateBody :: "json \<Rightarrow> bool" where
  "validateBody body =
     (if typeof (Some body) \<noteq> TObject \<or> body = JNull then False
      else
        let b = getprop body in
          typeof (b ''email'') = TString \<and>
          typeof (b ''name'') = TString \<and>
          typeof (b ''message'') = TString \<and>
          ((truthy (b ''phone'') \<and> typeof (b ''phone'') = TString \<and>
              length (str_of (b ''phone'')) > 0) \<or>
            \<not> truthy (b ''phone'')) \<and>
          str_includes (str_of (b ''email'')) (CHR ''@'') \<and>
          length (str_of (b ''name'')) > 0 \<and>
          length (str_of (b ''message'')) > 0)"

subsection \<open>Mailer (mailer.ts)\<close>

record ContactFormData =
  email :: string
  name :: string
  message :: string
  phone :: "string option"

text \<open>
  The validated body read as \<open>ContactFormData\<close>. The mailer only tests \<open>phone\<close> for
  truthiness before using it, and a truthy \<open>phone\<close> of a validated body is a string,
  so a \<open>phone\<close> that is no string (\<open>null\<close>, \<open>false\<close>, \<open>0\<close>) is read as absent.
\<close>

definition asContactFormData :: "json \<Rightarrow> ContactFormData" where
  "asContactFormData body =
     \<lparr>email = str_of (getprop body ''email''),
      name = str_of (getprop body ''name''),
      message = str_of (getprop body ''message''),
      phone = (case getprop body ''phone'' of Some (JStr s) \<Rightarrow> Some s | _ \<Rightarrow> None)\<rparr>"

record SmtpConfig =
  host :: string
  port :: int
  secure :: bool
  user :: string
  pass :: string

record OriginConfig =
  cfg_name :: string
  toEmail :: string
  smtp :: SmtpConfig

text \<open>\<open>s.replace(/c/g, r)\<close>: every occurrence of the character \<open>c\<close> becomes \<open>r\<close>.\<close>

definition replaceAll :: "char \<Rightarrow> string \<Rightarrow> string \<Rightarrow> string" where
  "replaceAll c r s = concat (map (\<lambda>x. if x = c then r else [x]) s)"

text \<open>The four replacements in the order of the source; \<open>0x22\<close> is the double quote.\<close>

definition escapeHtml :: "string \<Rightarrow> string" where
  "escapeHtml str =
     replaceAll (CHR 0x22) ''&quot;''
       (replaceAll (CHR ''>'') ''&gt;''
         (replaceAll (CHR ''<'') ''&lt;''
           (replaceAll (CHR ''&'') ''&amp;'' str)))"

text \<open>
  \<open>s.trim()\<close> strips the white space and the line terminators of ECMAScript from
  both ends. Of these, the ones a character here can be are the tab, the line feed,
  the vertical tab, the form feed, the carriage return, the space and the no-break
  space U+00A0; all the others (U+1680, U+2000 to U+200A, U+2028, U+2029, U+202F,
  U+205F, U+3000, U+FEFF) lie above \<open>0xFF\<close>.
\<close>

definition isSpace :: "char \<Rightarrow> bool" where
  "isSpace c =
     (c \<in> {CHR 0x09, CHR 0x0A, CHR 0x0B, CHR 0x0C, CHR 0x0D, CHR '' '', CHR 0xA0})"

definition trim :: "string \<Rightarrow> string" where
  "trim s = rev (dropWhile isSpace (rev (dropWhile isSpace s)))"

text \<open>The argument of \<open>transporter.sendMail\<close>.\<close>

record Mail =
  mail_from :: string
  mail_to :: string
  mail_subject :: string
  mail_text :: string
  mail_html :: string

text \<open>\<open>phone ? a : b\<close> for the optional string \<open>phone\<close>.\<close>

definition ifPhone :: "string option \<Rightarrow> (string \<Rightarrow> string) \<Rightarrow> string \<Rightarrow> string" where
  "ifPhone ph a b = (case ph of None \<Rightarrow> b | Some p \<Rightarrow> if p = [] then b else a p)"

text \<open>
  \<open>sendContactEmail\<close> up to the network exchange: the options it gives
  \<open>nodemailer.createTransport\<close> and the message it gives \<open>sendMail\<close>. \<open>0x0A\<close> is the
  line feed; the template literal of the HTML part starts with a line break and six
  spaces and ends with a line break and four spaces, which \<open>trim\<close> removes.
\<close>

definition sendContactEmail :: "ContactFormData \<Rightarrow> OriginConfig \<Rightarrow> SmtpConfig \<times> Mail" where
  "sendContactEmail data originConfig =
     (let originName = cfg_name originConfig in
      (\<lparr>host = host (smtp originConfig), port = port (smtp originConfig),
        secure = secure (smtp originConfig), user = user (smtp originConfig),
        pass = pass (smtp originConfig)\<rparr>,
       \<lparr>mail_from = [CHR 0x22] @ name data @ [CHR 0x22] @ '' <'' @ user (smtp originConfig) @ ''>'',
        mail_to = toEmail originConfig,
        mail_subject = ''[Contact|Kontakt] - '' @ originName @ '' - '' @ name data,
        mail_text = ''From: '' @ name data @ '' <'' @ email data @ ''> '' @
           ifPhone (phone data) (\<lambda>p. ''<'' @ p @ ''>'') [] @
           [CHR 0x0A, CHR 0x0A] @ message data,
        mail_html = trim
          ([CHR 0x0A] @ ''      <p><strong>From:</strong> '' @ escapeHtml (name data) @
           '' &lt;'' @ escapeHtml (email data) @ '' '' @
           ifPhone (phone data) (\<lambda>p. ''&lt;'' @ escapeHtml p) [] @
           ''&gt;</p>'' @ [CHR 0x0A] @ ''      <hr>'' @ [CHR 0x0A] @ ''      <p>'' @
           replaceAll (CHR 0x0A) ''<br>'' (escapeHtml (message data)) @
           ''</p>'' @ [CHR 0x0A] @ ''    '')\<rparr>))"

subsection \<open>Origin lookup (config.ts) and CORS policy (index.ts)\<close>

type_synonym Origins = "string \<rightharpoonup> OriginConfig"

definition getOriginConfig :: "Origins \<Rightarrow> string option \<Rightarrow> OriginConfig option" where
  "getOriginConfig origins origin =
     (case origin of
        None \<Rightarrow> None
      | Some orig \<Rightarrow> if orig = [] then None else origins orig)"

definition isAllowedOrigin :: "Origins \<Rightarrow> string option \<Rightarrow> bool" where
  "isAllowedOrigin origins origin =
     (case origin of
        None \<Rightarrow> False
      | Some orig \<Rightarrow> if orig = [] then False else origins orig \<noteq> None)"

type_synonym Headers = "(string \<times> string) list"

definition corsHeaders :: "Origins \<Rightarrow> string option \<Rightarrow> Headers" where
  "corsHeaders origins origin =
     (let allowedOrigin =
        (case origin of
           None \<Rightarrow> []
         | Some orig \<Rightarrow> if orig \<noteq> [] \<and> isAllowedOrigin origins origin then orig else [])
      in [(''Access-Control-Allow-Origin'', allowedOrigin),
          (''Access-Control-Allow-Methods'', ''POST, OPTIONS''),
          (''Access-Control-Allow-Headers'', ''Content-Type'')])"

subsection \<open>Request handler (index.ts)\<close>

text \<open>
  What the handler reads of a request: \<open>jsonBody\<close> is the result of \<open>req.json()\<close>,
  \<open>None\<close> when it throws; \<open>requestIP\<close> is \<open>server.requestIP(req)?.address\<close>.
\<close>

record Request =
  req_method :: string
  pathname :: string
  originHeader :: "string option"
  xForwardedFor :: "string option"
  requestIP :: "string option"
  jsonBody :: "json option"

text \<open>A response: \<open>body\<close> is the value given to \<open>JSON.stringify\<close>, \<open>None\<close> for no body.\<close>

record Response =
  status :: nat
  headers :: Headers
  body :: "json option"

definition json :: "json \<Rightarrow> nat \<Rightarrow> Headers \<Rightarrow> Response" where
  "json data st hs =
     \<lparr>status = st, headers = (''Content-Type'', ''application/json'') # hs, body = Some data\<rparr>"

text \<open>
  The process state the handler changes: the rate-limit map and the calls of
  \<open>sendContactEmail\<close> made so far, oldest first. Console logging is left out.
\<close>

record ServerState =
  rateLimitMap :: RateLimitMap
  mailerCalls :: "(ContactFormData \<times> OriginConfig) list"

text \<open>The client key: \<open>X-Forwarded-For\<close> up to its first comma, trimmed.\<close>

definition clientIp :: "Request \<Rightarrow> string" where
  "clientIp req =
     (case xForwardedFor req of
        Some h \<Rightarrow> trim (takeWhile (\<lambda>c. c \<noteq> CHR '','') h)
      | None \<Rightarrow> (case requestIP req of Some a \<Rightarrow> a | None \<Rightarrow> ''unknown''))"

text \<open>
  \<open>fetch(req)\<close>. \<open>delivers\<close> says whether the SMTP exchange of a transport and a
  message succeeds (the promise of \<open>sendMail\<close> resolves); \<open>now\<close> is the clock when the
  rate limiter is asked.
\<close>

definition fetch ::
  "Origins \<Rightarrow> (SmtpConfig \<times> Mail \<Rightarrow> bool) \<Rightarrow> int \<Rightarrow> Request \<Rightarrow> ServerState \<Rightarrow> Response \<times> ServerState"
where
  "fetch origins delivers now req st =
     (let origin = originHeader req;
          cors = corsHeaders origins origin
      in
      if req_method req = ''OPTIONS'' then (\<lparr>status = 204, headers = cors, body = None\<rparr>, st)
      else
        let ip = clientIp req in
        if pathname req \<noteq> ''/api/send'' \<or> req_method req \<noteq> ''POST''
        then (json (JObj [(''error'', JStr ''Not found'')]) 404 cors, st)
        else
          case getOriginConfig origins origin of
            None \<Rightarrow> (json (JObj [(''error'', JStr ''Forbidden'')]) 403 cors, st)
          | Some originConfig \<Rightarrow>
              (case isRateLimited now ip (rateLimitMap st) of
                 (limited, m') \<Rightarrow>
                   let st1 = st\<lparr>rateLimitMap := m'\<rparr> in
                   if limited
                   then (json (JObj [(''error'', JStr ''Too many requests'')]) 429 cors, st1)
                   else
                     (case jsonBody req of
                       None \<Rightarrow> (json (JObj [(''error'', JStr ''Invalid JSON'')]) 400 cors, st1)
                     | Some b \<Rightarrow>
                         if \<not> validateBody b
                         then (json (JObj [(''error'',
                                  JStr ''Invalid body. Required: email, name, message'')]) 400 cors, st1)
                         else
                           let data = asContactFormData b;
                               st2 = st1\<lparr>mailerCalls := mailerCalls st1 @ [(data, originConfig)]\<rparr>
                           in
                           if delivers (sendContactEmail data originConfig)
                           then (json (JObj [(''success'', JBool True)]) 200 cors, st2)
                           else (json (JObj [(''error'', JStr ''Failed to send email'')]) 500 cors, st2))))"

text \<open>Requests served one after the other, each at its own clock reading.\<close>

fun serve ::
  "Origins \<Rightarrow> (SmtpConfig \<times> Mail \<Rightarrow> bool) \<Rightarrow> (int \<times> Request) list \<Rightarrow> ServerState
     \<Rightarrow> Response list \<times> ServerState"
where
  "serve origins delivers [] st = ([], st)"
| "serve origins delivers ((now, req) # rest) st =
     (case fetch origins delivers now req st of
        (r, st') \<Rightarrow>
          (case serve origins delivers rest st' of (rs, st'') \<Rightarrow> (r # rs, st'')))"

subsection \<open>Example values\<close>

definition shop_config :: OriginConfig where
  "shop_config =
     \<lparr>cfg_name = ''Shop'', toEmail = ''owner@shop.example'',
      smtp = \<lparr>host = ''smtp.shop.example'', port = 587, secure = False,
              user = ''relay@shop.example'', pass = ''secret''\<rparr>\<rparr>"

definition shop_origins :: Origins where
  "shop_origins = [''https://shop.example'' \<mapsto> shop_config]"

definition ada_body :: json where
  "ada_body =
     JObj [(''email'', JStr ''ada@example.org''), (''name'', JStr ''Ada''),
           (''message'', JStr ''Hello'')]"

definition ada_data :: ContactFormData where
  "ada_data = \<lparr>email = ''ada@example.org'', name = ''Ada'', message = ''Hello'', phone = None\<rparr>"

text \<open>A request from the peer address 203.0.113.7 that carries \<open>ada_body\<close>.\<close>

definition request_from :: "string \<Rightarrow> string \<Rightarrow> string option \<Rightarrow> Request" where
  "request_from m p orig =
     \<lparr>req_method = m, pathname = p, originHeader = orig, xForwardedFor = None,
      requestIP = Some ''203.0.113.7'', jsonBody = Some ada_body\<rparr>"

definition idle_state :: ServerState where
  "idle_state = \<lparr>rateLimitMap = Map.empty, mailerCalls = []\<rparr>"

text \<open>
  A body whose \<open>name\<close> holds double quotes (\<open>0x22\<close>): the name is
  \<open>a" <ann@example.org>, "b\<close>.
\<close>

definition quoting_name :: string where
  "quoting_name = ''a'' @ [CHR 0x22] @ '' <ann@example.org>, '' @ [CHR 0x22] @ ''b''"

definition quoting_body :: json where
  "quoting_body =
     JObj [(''email'', JStr ''ann@example.org''), (''name'', JStr quoting_name),
           (''message'', JStr ''Hello'')]"

subsection \<open>Configuration loading (config.ts)\<close>

text \<open>
  Types are erased when the program runs: what \<open>loadConfig\<close> stores are the values
  of the configuration file as it finds them, so every stored field is a JavaScript
  value (\<open>None\<close> is \<open>undefined\<close>).
\<close>

record StoredSmtp =
  st_host :: "json option"
  st_port :: "json option"
  st_secure :: "json option"
  st_user :: "json option"
  st_pass :: "json option"

record StoredOrigin =
  st_name :: "json option"
  st_toEmail :: "json option"
  st_smtp :: StoredSmtp

record AppConfig =
  app_port :: rat
  app_origins :: "(string \<times> StoredOrigin) list"

datatype ConfigError =
  MissingConfigFileVariable
| FailedToRead string
| InvalidJson string
| NotAJsonObject
| InvalidToEmail string
| InvalidSmtp string
| MissingSmtpFields string
| NoOrigins
| TypeError

text \<open>\<open>a ?? b\<close>.\<close>

definition nullish :: "json option \<Rightarrow> json option \<Rightarrow> json option" where
  "nullish a b = (if a = None \<or> a = Some JNull then b else a)"

text \<open>
  The loop over \<open>Object.entries(configJson)\<close>; \<open>origins\<close> is the \<open>Map\<close> built so
  far, in insertion order. Reading a property of \<open>null\<close> throws a \<open>TypeError\<close>.
\<close>

fun loadOrigins ::
  "(string \<times> json) list \<Rightarrow> (string \<times> StoredOrigin) list \<Rightarrow> ConfigError + (string \<times> StoredOrigin) list"
where
  "loadOrigins [] origins = Inr origins"
| "loadOrigins ((origin, originConfig) # rest) origins =
     (if originConfig = JNull then Inl TypeError
      else if \<not> truthy (getprop originConfig ''toEmail'') \<or>
              typeof (getprop originConfig ''toEmail'') \<noteq> TString
      then Inl (InvalidToEmail origin)
      else
        case getprop originConfig ''smtp'' of
          None \<Rightarrow> Inl (InvalidSmtp origin)
        | Some smtpJson \<Rightarrow>
            if \<not> truthy (Some smtpJson) \<or> typeof (Some smtpJson) \<noteq> TObject
            then Inl (InvalidSmtp origin)
            else if \<not> truthy (getprop smtpJson ''host'') \<or> \<not> truthy (getprop smtpJson ''user'') \<or>
                    \<not> truthy (getprop smtpJson ''pass'')
            then Inl (MissingSmtpFields origin)
            else
              loadOrigins rest
                (AList.update origin
                   \<lparr>st_name = getprop originConfig ''name'',
                    st_toEmail = getprop originConfig ''toEmail'',
                    st_smtp =
                      \<lparr>st_host = getprop smtpJson ''host'',
                       st_port = nullish (getprop smtpJson ''port'') (Some (JNum 587)),
                       st_secure = nullish (getprop smtpJson ''secure'') (Some (JBool False)),
                       st_user = getprop smtpJson ''user'',
                       st_pass = getprop smtpJson ''pass''\<rparr>\<rparr>
                   origins))"

text \<open>
  \<open>loadConfig()\<close>. Its surroundings are parameters: \<open>configPath\<close> is
  \<open>process.env.CONFIG_FILE\<close>; \<open>readFileSync\<close> and \<open>parse\<close> return \<open>None\<close> where the
  platform's functions throw; \<open>portNumber\<close> is \<open>Number(process.env.PORT)\<close>, \<open>None\<close>
  for \<open>NaN\<close>.
\<close>

definition loadConfig ::
  "string option \<Rightarrow> (string \<Rightarrow> string option) \<Rightarrow> (string \<Rightarrow> json option) \<Rightarrow> rat option
     \<Rightarrow> ConfigError + AppConfig"
where
  "loadConfig configPath readFileSync parse portNumber =
     (case configPath of
        None \<Rightarrow> Inl MissingConfigFileVariable
      | Some path \<Rightarrow>
          if path = [] then Inl MissingConfigFileVariable
          else
            (case readFileSync path of
              None \<Rightarrow> Inl (FailedToRead path)
            | Some fileContent \<Rightarrow>
                (case parse fileContent of
                   None \<Rightarrow> Inl (InvalidJson path)
                 | Some (JObj configJson) \<Rightarrow>
                     (case loadOrigins configJson [] of
                        Inl e \<Rightarrow> Inl e
                      | Inr origins \<Rightarrow>
                          if length origins = 0 then Inl NoOrigins
                          else Inr \<lparr>app_port =
                                      (case portNumber of
                                         None \<Rightarrow> 3000
                                       | Some n \<Rightarrow> if n = 0 then 3000 else n),
                                    app_origins = origins\<rparr>)
                 | Some other \<Rightarrow> Inl NotAJsonObject)))"

subsection \<open>Facts about the rate limiter\<close>

lemma isRateLimited_fresh:
  "m ip = None \<Longrightarrow>
   isRateLimited now ip m = (False, m(ip \<mapsto> \<lparr>count = 1, resetAt = now + 60000\<rparr>))"
  by (simp add: isRateLimited_def RATE_WINDOW_MS_def)

lemma isRateLimited_expired:
  "m ip = Some e \<Longrightarrow> resetAt e < now \<Longrightarrow>
   isRateLimited now ip m = (False, m(ip \<mapsto> \<lparr>count = 1, resetAt = now + 60000\<rparr>))"
  by (simp add: isRateLimited_def RATE_WINDOW_MS_def)

lemma isRateLimited_live:
  "m ip = Some e \<Longrightarrow> now \<le> resetAt e \<Longrightarrow>
   isRateLimited now ip m = (5 < count e + 1, m(ip \<mapsto> e\<lparr>count := count e + 1\<rparr>))"
  by (simp add: isRateLimited_def RATE_LIMIT_def)

text \<open>
  A run of calls that all fall inside the window of a stored entry: the \<open>k\<close>-th of
  them (from 0) is rejected iff the count it produces exceeds the cap, and the entry
  ends with its count raised by the number of calls and its \<open>resetAt\<close> untouched.
\<close>

lemma checks_live:
  "m ip = Some e \<Longrightarrow> \<forall>t \<in> set ts. t \<le> resetAt e \<Longrightarrow>
   checks ip ts m =
     (map (\<lambda>k. 5 < count e + 1 + int k) [0..<length ts],
      m(ip \<mapsto> e\<lparr>count := count e + int (length ts)\<rparr>))"
proof (induction ts arbitrary: m e)
  case Nil
  then show ?case by (simp add: fun_upd_idem)
next
  case (Cons t ts)
  let ?e' = "e\<lparr>count := count e + 1\<rparr>"
  let ?m' = "m(ip \<mapsto> ?e')"
  have step: "isRateLimited t ip m = (5 < count e + 1, ?m')"
    using Cons.prems by (simp add: isRateLimited_live)
  have "?m' ip = Some ?e'" by simp
  moreover have "\<forall>t \<in> set ts. t \<le> resetAt ?e'" using Cons.prems by simp
  ultimately have rest:
    "checks ip ts ?m' =
       (map (\<lambda>k. 5 < count ?e' + 1 + int k) [0..<length ts],
        ?m'(ip \<mapsto> ?e'\<lparr>count := count ?e' + int (length ts)\<rparr>))"
    by (rule Cons.IH)
  have shift: "map (\<lambda>k. 5 < count e + 1 + int k) [0..<length (t # ts)] =
      (5 < count e + 1) # map (\<lambda>k. 5 < count ?e' + 1 + int k) [0..<length ts]"
    by (simp add: upt_conv_Cons map_Suc_upt[symmetric] add.assoc add.commute del: upt_Suc)
  have entry: "?e'\<lparr>count := count ?e' + int (length ts)\<rparr> =
      e\<lparr>count := count e + int (length (t # ts))\<rparr>"
    by simp
  have "checks ip (t # ts) m =
      ((5 < count e + 1) # map (\<lambda>k. 5 < count ?e' + 1 + int k) [0..<length ts],
       ?m'(ip \<mapsto> ?e'\<lparr>count := count ?e' + int (length ts)\<rparr>))"
    by (simp only: checks.simps step rest prod.case)
  also have "\<dots> =
      (map (\<lambda>k. 5 < count e + 1 + int k) [0..<length (t # ts)],
       m(ip \<mapsto> e\<lparr>count := count e + int (length (t # ts))\<rparr>))"
    by (simp only: entry shift fun_upd_upd)
  finally show ?case .
qed

lemma upt_shift2: "map f [1..<Suc (Suc n)] = f 1 # map (\<lambda>k. f (Suc (Suc k))) [0..<n]"
proof -
  have "[1..<Suc (Suc n)] = 1 # map (\<lambda>k. Suc (Suc k)) [0..<n]"
    by (simp add: upt_conv_Cons map_Suc_upt[symmetric] del: upt_Suc)
  then show ?thesis by (simp add: comp_def)
qed

subsection \<open>The rate limiter's window\<close>

text \<open>
  Claim C2. For one client key: a call that finds no entry stores \<open>count = 1\<close>,
  \<open>resetAt = now + 60000\<close> and is allowed; a call strictly before the stored
  \<open>resetAt\<close> increments the count and is allowed iff the incremented count is at most
  5; so, of the calls of one window that starts with no entry, the first five are
  allowed and every later one is rejected (call number \<open>k\<close> is rejected iff
  \<open>k > 5\<close>); a call after \<open>resetAt\<close> stores \<open>count = 1\<close> again and is allowed.
\<close>

theorem rate_limit_window:
  "(m ip = None \<longrightarrow>
      isRateLimited now ip m = (False, m(ip \<mapsto> \<lparr>count = 1, resetAt = now + 60000\<rparr>))) \<and>
   (m ip = Some e \<and> now < resetAt e \<longrightarrow>
      isRateLimited now ip m = (\<not> count e + 1 \<le> 5, m(ip \<mapsto> e\<lparr>count := count e + 1\<rparr>))) \<and>
   (m ip = None \<and> (\<forall>t \<in> set ts. t < t0 + 60000) \<longrightarrow>
      fst (checks ip (t0 # ts) m) = map (\<lambda>k. \<not> k \<le> 5) [1..<Suc (Suc (length ts))]) \<and>
   (m ip = Some e \<and> resetAt e < now \<longrightarrow>
      isRateLimited now ip m = (False, m(ip \<mapsto> \<lparr>count = 1, resetAt = now + 60000\<rparr>)))"
proof (intro conjI impI)
  assume "m ip = None"
  then show "isRateLimited now ip m = (False, m(ip \<mapsto> \<lparr>count = 1, resetAt = now + 60000\<rparr>))"
    by (rule isRateLimited_fresh)
next
  assume "m ip = Some e \<and> now < resetAt e"
  then show "isRateLimited now ip m = (\<not> count e + 1 \<le> 5, m(ip \<mapsto> e\<lparr>count := count e + 1\<rparr>))"
    using isRateLimited_live [of m ip e now] by auto
next
  assume a: "m ip = None \<and> (\<forall>t \<in> set ts. t < t0 + 60000)"
  let ?e = "\<lparr>count = 1, resetAt = t0 + 60000\<rparr>"
  let ?m = "m(ip \<mapsto> ?e)"
  have first: "isRateLimited t0 ip m = (False, ?m)"
    using a by (simp add: isRateLimited_fresh)
  have "?m ip = Some ?e" by simp
  moreover have "\<forall>t \<in> set ts. t \<le> resetAt ?e" using a by auto
  ultimately have rest: "checks ip ts ?m =
      (map (\<lambda>k. 5 < count ?e + 1 + int k) [0..<length ts],
       ?m(ip \<mapsto> ?e\<lparr>count := count ?e + int (length ts)\<rparr>))"
    by (rule checks_live)
  have "fst (checks ip (t0 # ts) m) = False # map (\<lambda>k. 5 < count ?e + 1 + int k) [0..<length ts]"
    by (simp only: checks.simps first rest prod.case fst_conv)
  also have "\<dots> = map (\<lambda>k. \<not> k \<le> 5) [1..<Suc (Suc (length ts))]"
  proof -
    have "map (\<lambda>k. \<not> k \<le> 5) [1..<Suc (Suc (length ts))] =
        (\<not> (1::nat) \<le> 5) # map (\<lambda>k. \<not> Suc (Suc k) \<le> 5) [0..<length ts]"
      by (rule upt_shift2)
    moreover have "(\<lambda>k. 5 < count ?e + 1 + int k) = (\<lambda>k. \<not> Suc (Suc k) \<le> 5)"
      by (rule ext) auto
    ultimately show ?thesis by simp
  qed
  finally show "fst (checks ip (t0 # ts) m) = map (\<lambda>k. \<not> k \<le> 5) [1..<Suc (Suc (length ts))]" .
next
  assume "m ip = Some e \<and> resetAt e < now"
  then show "isRateLimited now ip m = (False, m(ip \<mapsto> \<lparr>count = 1, resetAt = now + 60000\<rparr>))"
    by (simp add: isRateLimited_expired)
qed

text \<open>
  Six calls in one window, from an empty map: five allowed, the sixth rejected; the
  single steps at counts 4 and 5; and the reset after \<open>resetAt\<close>.
\<close>

theorem rate_limit_window_witness:
  "isRateLimited 1000 ''203.0.113.7'' Map.empty =
     (False, [''203.0.113.7'' \<mapsto> \<lparr>count = 1, resetAt = 61000\<rparr>]) \<and>
   isRateLimited 2000 ''203.0.113.7'' [''203.0.113.7'' \<mapsto> \<lparr>count = 4, resetAt = 61000\<rparr>] =
     (False, [''203.0.113.7'' \<mapsto> \<lparr>count = 5, resetAt = 61000\<rparr>]) \<and>
   isRateLimited 2000 ''203.0.113.7'' [''203.0.113.7'' \<mapsto> \<lparr>count = 5, resetAt = 61000\<rparr>] =
     (True, [''203.0.113.7'' \<mapsto> \<lparr>count = 6, resetAt = 61000\<rparr>]) \<and>
   fst (checks ''203.0.113.7'' [1000, 1010, 1020, 1030, 1040, 1050] Map.empty) =
     [False, False, False, False, False, True] \<and>
   isRateLimited 61001 ''203.0.113.7'' [''203.0.113.7'' \<mapsto> \<lparr>count = 6, resetAt = 61000\<rparr>] =
     (False, [''203.0.113.7'' \<mapsto> \<lparr>count = 1, resetAt = 121001\<rparr>])"
proof -
  let ?ip = "''203.0.113.7''"
  let ?e4 = "\<lparr>count = 4, resetAt = 61000\<rparr>"
  let ?e5 = "\<lparr>count = 5, resetAt = 61000\<rparr>"
  let ?e6 = "\<lparr>count = 6, resetAt = 61000\<rparr>"
  let ?ts = "[1010, 1020, 1030, 1040, 1050] :: int list"
  have h1: "Map.empty ?ip = (None :: RateLimitEntry option)" by simp
  have h3: "Map.empty ?ip = (None :: RateLimitEntry option) \<and> (\<forall>t \<in> set ?ts. t < 1000 + 60000)" by simp
  have h4: "[?ip \<mapsto> ?e4] ?ip = Some ?e4 \<and> 2000 < resetAt ?e4" by simp
  have h5: "[?ip \<mapsto> ?e5] ?ip = Some ?e5 \<and> 2000 < resetAt ?e5" by simp
  have h6: "[?ip \<mapsto> ?e6] ?ip = Some ?e6 \<and> resetAt ?e6 < 61001" by simp
  have "isRateLimited 1000 ?ip Map.empty = (False, [?ip \<mapsto> \<lparr>count = 1, resetAt = 1000 + 60000\<rparr>])"
    using rate_limit_window [of Map.empty ?ip 1000 ?e4 ?ts 1000] h1 by blast
  moreover have "isRateLimited 2000 ?ip [?ip \<mapsto> ?e4] =
      (\<not> count ?e4 + 1 \<le> 5, [?ip \<mapsto> ?e4, ?ip \<mapsto> ?e4\<lparr>count := count ?e4 + 1\<rparr>])"
    using rate_limit_window [of "[?ip \<mapsto> ?e4]" ?ip 2000 ?e4 ?ts 1000] h4 by blast
  moreover have "isRateLimited 2000 ?ip [?ip \<mapsto> ?e5] =
      (\<not> count ?e5 + 1 \<le> 5, [?ip \<mapsto> ?e5, ?ip \<mapsto> ?e5\<lparr>count := count ?e5 + 1\<rparr>])"
    using rate_limit_window [of "[?ip \<mapsto> ?e5]" ?ip 2000 ?e5 ?ts 1000] h5 by blast
  moreover have "fst (checks ?ip (1000 # ?ts) Map.empty) =
      map (\<lambda>k. \<not> k \<le> 5) [1..<Suc (Suc (length ?ts))]"
    using rate_limit_window [of Map.empty ?ip 1000 ?e4 ?ts 1000] h3 by blast
  moreover have "map (\<lambda>k. \<not> k \<le> 5) [1..<Suc (Suc (length ?ts))] =
      [False, False, False, False, False, True]"
    by (simp add: upt_conv_Cons del: upt_Suc)
  moreover have "isRateLimited 61001 ?ip [?ip \<mapsto> ?e6] =
      (False, [?ip \<mapsto> ?e6, ?ip \<mapsto> \<lparr>count = 1, resetAt = 61001 + 60000\<rparr>])"
    using rate_limit_window [of "[?ip \<mapsto> ?e6]" ?ip 61001 ?e6 ?ts 1000] h6 by blast
  ultimately show ?thesis by simp
qed

text \<open>
  Claim C8, as amended. The guard of the source is \<open>now > entry.resetAt\<close>: a check
  at a time up to and including \<open>resetAt\<close> increments the stored count and leaves
  \<open>resetAt\<close> alone; a check strictly after \<open>resetAt\<close> stores \<open>count = 1\<close> and
  \<open>resetAt = now + 60000\<close>.
\<close>

theorem count_grows_until_reset:
  "m ip = Some e \<Longrightarrow>
   (now \<le> resetAt e \<longrightarrow>
      snd (isRateLimited now ip m) ip = Some (e\<lparr>count := count e + 1\<rparr>) \<and>
      count e < count (e\<lparr>count := count e + 1\<rparr>) \<and>
      resetAt (e\<lparr>count := count e + 1\<rparr>) = resetAt e) \<and>
   (resetAt e < now \<longrightarrow>
      snd (isRateLimited now ip m) ip = Some \<lparr>count = 1, resetAt = now + 60000\<rparr>)"
  by (simp add: isRateLimited_live isRateLimited_expired)

theorem count_grows_until_reset_witness:
  "snd (isRateLimited 60000 ''198.51.100.4'' [''198.51.100.4'' \<mapsto> \<lparr>count = 3, resetAt = 60000\<rparr>])
       ''198.51.100.4'' = Some \<lparr>count = 4, resetAt = 60000\<rparr> \<and>
   snd (isRateLimited 60001 ''198.51.100.4'' [''198.51.100.4'' \<mapsto> \<lparr>count = 3, resetAt = 60000\<rparr>])
       ''198.51.100.4'' = Some \<lparr>count = 1, resetAt = 120001\<rparr>"
proof -
  let ?ip = "''198.51.100.4''"
  let ?e = "\<lparr>count = 3, resetAt = 60000\<rparr>"
  have h: "[?ip \<mapsto> ?e] ?ip = Some ?e" by simp
  have a: "(60000::int) \<le> resetAt ?e" and b: "resetAt ?e < (60001::int)" by simp_all
  have "snd (isRateLimited 60000 ?ip [?ip \<mapsto> ?e]) ?ip = Some (?e\<lparr>count := count ?e + 1\<rparr>)"
    using count_grows_until_reset [of "[?ip \<mapsto> ?e]" ?ip ?e 60000] h a by blast
  moreover have "snd (isRateLimited 60001 ?ip [?ip \<mapsto> ?e]) ?ip =
      Some \<lparr>count = 1, resetAt = 60001 + 60000\<rparr>"
    using count_grows_until_reset [of "[?ip \<mapsto> ?e]" ?ip ?e 60001] h b by blast
  ultimately show ?thesis by simp
qed

text \<open>
  Claim C8 as stated fails at the boundary: an entry made at time 0 has
  \<open>resetAt = 60000\<close>, and a check arriving at exactly 60000 raises its count to 2
  instead of starting a fresh window.
\<close>

theorem reset_boundary_counterexample:
  "isRateLimited 0 ''198.51.100.4'' Map.empty =
     (False, [''198.51.100.4'' \<mapsto> \<lparr>count = 1, resetAt = 60000\<rparr>]) \<and>
   snd (isRateLimited 60000 ''198.51.100.4'' [''198.51.100.4'' \<mapsto> \<lparr>count = 1, resetAt = 60000\<rparr>])
       ''198.51.100.4'' = Some \<lparr>count = 2, resetAt = 60000\<rparr> \<and>
   snd (isRateLimited 60000 ''198.51.100.4'' [''198.51.100.4'' \<mapsto> \<lparr>count = 1, resetAt = 60000\<rparr>])
       ''198.51.100.4'' \<noteq> Some \<lparr>count = 1, resetAt = 60000 + 60000\<rparr>"
  by (simp add: isRateLimited_def RATE_LIMIT_def RATE_WINDOW_MS_def)

text \<open>
  Claim C10. While an entry is live (\<open>now \<le> resetAt\<close>), every check increments
  its count and leaves \<open>resetAt\<close> alone, whether the call is allowed or rejected;
  once the count has reached the cap, every further call of the window is rejected
  and the count keeps growing by one per call.
\<close>

theorem rejected_calls_still_count:
  "(m ip = Some e \<and> now \<le> resetAt e \<longrightarrow>
      snd (isRateLimited now ip m) ip = Some (e\<lparr>count := count e + 1\<rparr>)) \<and>
   (m ip = Some e \<and> 5 \<le> count e \<and> (\<forall>t \<in> set ts. t \<le> resetAt e) \<longrightarrow>
      checks ip ts m =
        (replicate (length ts) True, m(ip \<mapsto> e\<lparr>count := count e + int (length ts)\<rparr>)))"
proof (intro conjI impI)
  assume "m ip = Some e \<and> now \<le> resetAt e"
  then show "snd (isRateLimited now ip m) ip = Some (e\<lparr>count := count e + 1\<rparr>)"
    by (simp add: isRateLimited_live)
next
  assume a: "m ip = Some e \<and> 5 \<le> count e \<and> (\<forall>t \<in> set ts. t \<le> resetAt e)"
  then have "checks ip ts m =
      (map (\<lambda>k. 5 < count e + 1 + int k) [0..<length ts],
       m(ip \<mapsto> e\<lparr>count := count e + int (length ts)\<rparr>))"
    by (simp add: checks_live)
  moreover have "(\<lambda>k. 5 < count e + 1 + int k) = (\<lambda>k. True)"
    using a by (intro ext) auto
  ultimately show "checks ip ts m =
      (replicate (length ts) True, m(ip \<mapsto> e\<lparr>count := count e + int (length ts)\<rparr>))"
    by (simp add: map_replicate_const)
qed

theorem rejected_calls_still_count_witness:
  "snd (isRateLimited 500 ''198.51.100.9'' [''198.51.100.9'' \<mapsto> \<lparr>count = 7, resetAt = 900\<rparr>])
       ''198.51.100.9'' = Some \<lparr>count = 8, resetAt = 900\<rparr> \<and>
   checks ''198.51.100.9'' [500, 600, 900] [''198.51.100.9'' \<mapsto> \<lparr>count = 5, resetAt = 900\<rparr>] =
     ([True, True, True], [''198.51.100.9'' \<mapsto> \<lparr>count = 8, resetAt = 900\<rparr>])"
proof -
  let ?ip = "''198.51.100.9''"
  let ?e7 = "\<lparr>count = 7, resetAt = 900\<rparr>"
  let ?e5 = "\<lparr>count = 5, resetAt = 900\<rparr>"
  let ?ts = "[500, 600, 900] :: int list"
  have h1: "[?ip \<mapsto> ?e7] ?ip = Some ?e7 \<and> 500 \<le> resetAt ?e7" by simp
  have h2: "[?ip \<mapsto> ?e5] ?ip = Some ?e5 \<and> 5 \<le> count ?e5 \<and> (\<forall>t \<in> set ?ts. t \<le> resetAt ?e5)"
    by simp
  have "snd (isRateLimited 500 ?ip [?ip \<mapsto> ?e7]) ?ip = Some (?e7\<lparr>count := count ?e7 + 1\<rparr>)"
    using rejected_calls_still_count [of "[?ip \<mapsto> ?e7]" ?ip ?e7 500 "[]"] h1 by blast
  moreover have "checks ?ip ?ts [?ip \<mapsto> ?e5] =
      (replicate (length ?ts) True, [?ip \<mapsto> ?e5, ?ip \<mapsto> ?e5\<lparr>count := count ?e5 + int (length ?ts)\<rparr>])"
    using rejected_calls_still_count [of "[?ip \<mapsto> ?e5]" ?ip ?e5 0 ?ts] h2 by blast
  moreover have "replicate (length ?ts) True = [True, True, True]"
    by (simp add: numeral_3_eq_3)
  ultimately show ?thesis by simp
qed

subsection \<open>The validator\<close>

lemma typeof_string: "typeof x = TString \<longleftrightarrow> (\<exists>s. x = Some (JStr s))"
  by (cases x rule: typeof.cases) simp_all

lemma validateBody_JObj:
  "validateBody (JObj kvs) \<longleftrightarrow>
     typeof (map_of kvs ''email'') = TString \<and>
     typeof (map_of kvs ''name'') = TString \<and>
     typeof (map_of kvs ''message'') = TString \<and>
     ((truthy (map_of kvs ''phone'') \<and> typeof (map_of kvs ''phone'') = TString \<and>
         str_of (map_of kvs ''phone'') \<noteq> []) \<or>
       \<not> truthy (map_of kvs ''phone'')) \<and>
     CHR ''@'' \<in> set (str_of (map_of kvs ''email'')) \<and>
     str_of (map_of kvs ''name'') \<noteq> [] \<and>
     str_of (map_of kvs ''message'') \<noteq> []"
  by (simp add: validateBody_def str_includes_def Let_def)

lemma validateBody_not_object:
  "\<not> validateBody JNull" "\<not> validateBody (JBool b)" "\<not> validateBody (JNum n)"
  "\<not> validateBody (JStr s)" "\<not> validateBody (JArr xs)"
  by (simp_all add: validateBody_def Let_def)

text \<open>
  Claim C3. \<open>validateBody\<close> accepts a parsed value only if it is an object (so
  neither \<open>null\<close> nor an array) whose \<open>email\<close>, \<open>name\<close> and \<open>message\<close> are strings,
  with an \<open>@\<close> in \<open>email\<close> and \<open>name\<close> and \<open>message\<close> non-empty. It accepts
  \<open>{email: "a@b.com", name: "X", message: "hi"}\<close>, and it rejects every object
  without \<open>email\<close>, with an empty \<open>name\<close>, or whose \<open>email\<close> has no \<open>@\<close>.
\<close>

theorem validateBody_accepts_only:
  "(validateBody v \<longrightarrow>
      (\<exists>kvs e n msg. v = JObj kvs \<and>
         map_of kvs ''email'' = Some (JStr e) \<and> map_of kvs ''name'' = Some (JStr n) \<and>
         map_of kvs ''message'' = Some (JStr msg) \<and>
         CHR ''@'' \<in> set e \<and> n \<noteq> [] \<and> msg \<noteq> [])) \<and>
   validateBody (JObj [(''email'', JStr ''a@b.com''), (''name'', JStr ''X''), (''message'', JStr ''hi'')]) \<and>
   (map_of kvs ''email'' = None \<longrightarrow> \<not> validateBody (JObj kvs)) \<and>
   (map_of kvs ''name'' = Some (JStr []) \<longrightarrow> \<not> validateBody (JObj kvs)) \<and>
   (map_of kvs ''email'' = Some (JStr e) \<and> CHR ''@'' \<notin> set e \<longrightarrow> \<not> validateBody (JObj kvs))"
proof (intro conjI impI)
  assume ok: "validateBody v"
  then obtain kvs where v: "v = JObj kvs"
    by (cases v) (simp_all add: validateBody_not_object)
  from ok v have fields:
    "typeof (map_of kvs ''email'') = TString" "typeof (map_of kvs ''name'') = TString"
    "typeof (map_of kvs ''message'') = TString"
    "CHR ''@'' \<in> set (str_of (map_of kvs ''email''))"
    "str_of (map_of kvs ''name'') \<noteq> []" "str_of (map_of kvs ''message'') \<noteq> []"
    by (simp_all add: validateBody_JObj)
  from fields(1) obtain e where e: "map_of kvs ''email'' = Some (JStr e)"
    by (auto simp: typeof_string)
  from fields(2) obtain n where n: "map_of kvs ''name'' = Some (JStr n)"
    by (auto simp: typeof_string)
  from fields(3) obtain msg where msg: "map_of kvs ''message'' = Some (JStr msg)"
    by (auto simp: typeof_string)
  from fields(4-6) e n msg have "CHR ''@'' \<in> set e" "n \<noteq> []" "msg \<noteq> []"
    by simp_all
  with v e n msg show "\<exists>kvs e n msg. v = JObj kvs \<and>
         map_of kvs ''email'' = Some (JStr e) \<and> map_of kvs ''name'' = Some (JStr n) \<and>
         map_of kvs ''message'' = Some (JStr msg) \<and>
         CHR ''@'' \<in> set e \<and> n \<noteq> [] \<and> msg \<noteq> []"
    by blast
next
  show "validateBody (JObj [(''email'', JStr ''a@b.com''), (''name'', JStr ''X''), (''message'', JStr ''hi'')])"
    by (simp add: validateBody_JObj)
next
  assume "map_of kvs ''email'' = None"
  then show "\<not> validateBody (JObj kvs)" by (simp add: validateBody_JObj)
next
  assume "map_of kvs ''name'' = Some (JStr [])"
  then show "\<not> validateBody (JObj kvs)" by (simp add: validateBody_JObj)
next
  assume "map_of kvs ''email'' = Some (JStr e) \<and> CHR ''@'' \<notin> set e"
  then show "\<not> validateBody (JObj kvs)" by (simp add: validateBody_JObj)
qed

theorem validateBody_accepts_only_witness:
  "validateBody (JObj [(''name'', JStr ''Ada''), (''email'', JStr ''ada@example.org''), (''message'', JStr ''Hello'')]) \<and>
   \<not> validateBody (JObj [(''name'', JStr ''Ada''), (''message'', JStr ''Hello'')]) \<and>
   \<not> validateBody (JObj [(''email'', JStr ''ada@example.org''), (''name'', JStr []), (''message'', JStr ''Hello'')]) \<and>
   \<not> validateBody (JObj [(''email'', JStr ''ada.example.org''), (''name'', JStr ''Ada''), (''message'', JStr ''Hello'')]) \<and>
   \<not> validateBody (JArr [JStr ''a@b.com'']) \<and> \<not> validateBody JNull"
proof -
  let ?good = "[(''name'', JStr ''Ada''), (''email'', JStr ''ada@example.org''), (''message'', JStr ''Hello'')]"
  let ?noemail = "[(''name'', JStr ''Ada''), (''message'', JStr ''Hello'')]"
  let ?noname = "[(''email'', JStr ''ada@example.org''), (''name'', JStr []), (''message'', JStr ''Hello'')]"
  let ?noat = "[(''email'', JStr ''ada.example.org''), (''name'', JStr ''Ada''), (''message'', JStr ''Hello'')]"
  have g: "validateBody (JObj ?good)" by (simp add: validateBody_JObj)
  have "\<exists>kvs e n msg. JObj ?good = JObj kvs \<and>
         map_of kvs ''email'' = Some (JStr e) \<and> map_of kvs ''name'' = Some (JStr n) \<and>
         map_of kvs ''message'' = Some (JStr msg) \<and>
         CHR ''@'' \<in> set e \<and> n \<noteq> [] \<and> msg \<noteq> []"
    using validateBody_accepts_only [of "JObj ?good" "[]" "[]"] g by blast
  have h1: "map_of ?noemail ''email'' = None" by simp
  have h2: "map_of ?noname ''name'' = Some (JStr [])" by simp
  have h3: "map_of ?noat ''email'' = Some (JStr ''ada.example.org'') \<and> CHR ''@'' \<notin> set ''ada.example.org''"
    by simp
  have "\<not> validateBody (JObj ?noemail)"
    using validateBody_accepts_only [of JNull ?noemail "[]"] h1 by blast
  moreover have "\<not> validateBody (JObj ?noname)"
    using validateBody_accepts_only [of JNull ?noname "[]"] h2 by blast
  moreover have "\<not> validateBody (JObj ?noat)"
    using validateBody_accepts_only [of JNull ?noat "''ada.example.org''"] h3 by blast
  moreover have "\<not> validateBody (JArr [JStr ''a@b.com''])"
    using validateBody_accepts_only [of "JArr [JStr ''a@b.com'']" "[]" "[]"] by blast
  moreover have "\<not> validateBody JNull"
    using validateBody_accepts_only [of JNull "[]" "[]"] by blast
  ultimately show ?thesis using g by simp
qed

text \<open>
  Claim C4, as amended. For an object that meets the requirements on \<open>email\<close>,
  \<open>name\<close> and \<open>message\<close>: without \<open>phone\<close> it is accepted; with the empty string
  as \<open>phone\<close> it is accepted too (the source lets every falsy \<open>phone\<close> pass through
  \<open>|| !b.phone\<close>); with a non-empty string as \<open>phone\<close> it is accepted; and it is
  rejected exactly when \<open>phone\<close> is truthy and not a string.
\<close>

theorem validateBody_phone:
  "map_of kvs ''email'' = Some (JStr e) \<and> CHR ''@'' \<in> set e \<and>
   map_of kvs ''name'' = Some (JStr n) \<and> n \<noteq> [] \<and>
   map_of kvs ''message'' = Some (JStr msg) \<and> msg \<noteq> [] \<Longrightarrow>
   (map_of kvs ''phone'' = None \<longrightarrow> validateBody (JObj kvs)) \<and>
   (map_of kvs ''phone'' = Some (JStr []) \<longrightarrow> validateBody (JObj kvs)) \<and>
   (map_of kvs ''phone'' = Some (JStr p) \<and> p \<noteq> [] \<longrightarrow> validateBody (JObj kvs)) \<and>
   (validateBody (JObj kvs) \<longleftrightarrow>
      \<not> truthy (map_of kvs ''phone'') \<or> typeof (map_of kvs ''phone'') = TString)"
  by (auto simp: validateBody_JObj typeof_string)

theorem validateBody_phone_witness:
  "validateBody (JObj [(''email'', JStr ''a@b.com''), (''name'', JStr ''X''), (''message'', JStr ''hi'')]) \<and>
   validateBody (JObj [(''email'', JStr ''a@b.com''), (''name'', JStr ''X''), (''message'', JStr ''hi''),
                       (''phone'', JStr [])]) \<and>
   validateBody (JObj [(''email'', JStr ''a@b.com''), (''name'', JStr ''X''), (''message'', JStr ''hi''),
                       (''phone'', JStr ''+49 30 1234'')]) \<and>
   \<not> validateBody (JObj [(''email'', JStr ''a@b.com''), (''name'', JStr ''X''), (''message'', JStr ''hi''),
                       (''phone'', JNum 5)])"
proof -
  let ?base = "[(''email'', JStr ''a@b.com''), (''name'', JStr ''X''), (''message'', JStr ''hi'')]"
  have b: "\<And>ph. map_of (?base @ ph) ''email'' = Some (JStr ''a@b.com'') \<and> CHR ''@'' \<in> set ''a@b.com'' \<and>
      map_of (?base @ ph) ''name'' = Some (JStr ''X'') \<and> ''X'' \<noteq> [] \<and>
      map_of (?base @ ph) ''message'' = Some (JStr ''hi'') \<and> ''hi'' \<noteq> []"
    by simp
  have "validateBody (JObj (?base @ []))"
    using validateBody_phone [OF b [of "[]"], of "[]"] by simp
  moreover have "validateBody (JObj (?base @ [(''phone'', JStr [])]))"
    using validateBody_phone [OF b [of "[(''phone'', JStr [])]"], of "[]"] by simp
  moreover have "validateBody (JObj (?base @ [(''phone'', JStr ''+49 30 1234'')]))"
    using validateBody_phone [OF b [of "[(''phone'', JStr ''+49 30 1234'')]"], of "''+49 30 1234''"] by simp
  moreover have "\<not> validateBody (JObj (?base @ [(''phone'', JNum 5)]))"
    using validateBody_phone [OF b [of "[(''phone'', JNum 5)]"], of "[]"] by simp
  ultimately show ?thesis by simp
qed

text \<open>
  Claim C4 as stated says that an empty \<open>phone\<close> is rejected. The validator accepts
  \<open>{email: "a@b.com", name: "X", message: "hi", phone: ""}\<close>.
\<close>

theorem empty_phone_counterexample:
  "validateBody (JObj [(''email'', JStr ''a@b.com''), (''name'', JStr ''X''),
                       (''message'', JStr ''hi''), (''phone'', JStr [])])"
  by (simp add: validateBody_JObj)

subsection \<open>HTML escaping\<close>

lemma replaceAll_absent: "c \<notin> set s \<Longrightarrow> replaceAll c r s = s"
  by (induction s) (auto simp: replaceAll_def)

lemma replaceAll_Nil: "replaceAll c r [] = []"
  by (simp add: replaceAll_def)

lemma replaceAll_Cons: "replaceAll c r (x # xs) = (if x = c then r else [x]) @ replaceAll c r xs"
  by (simp add: replaceAll_def)

lemma replaceAll_append: "replaceAll c r (xs @ ys) = replaceAll c r xs @ replaceAll c r ys"
  by (simp add: replaceAll_def)

lemma set_replaceAll: "set (replaceAll c r s) \<subseteq> (set s - {c}) \<union> set r"
  by (induction s) (auto simp: replaceAll_Nil replaceAll_Cons)

lemma replaceAll_removes: "c \<notin> set r \<Longrightarrow> c \<notin> set (replaceAll c r s)"
  using set_replaceAll [of c r s] by auto

lemma replaceAll_keeps_out: "d \<notin> set s \<Longrightarrow> d \<notin> set r \<Longrightarrow> d \<notin> set (replaceAll c r s)"
  using set_replaceAll [of c r s] by auto

lemma escapeHtml_plain:
  "CHR ''&'' \<notin> set s \<Longrightarrow> CHR ''<'' \<notin> set s \<Longrightarrow> CHR ''>'' \<notin> set s \<Longrightarrow> CHR 0x22 \<notin> set s \<Longrightarrow>
   escapeHtml s = s"
  by (simp add: escapeHtml_def replaceAll_absent)

lemma escapeHtml_clean:
  "CHR ''<'' \<notin> set (escapeHtml s)" "CHR ''>'' \<notin> set (escapeHtml s)" "CHR 0x22 \<notin> set (escapeHtml s)"
proof -
  let ?a = "replaceAll (CHR ''&'') ''&amp;'' s"
  let ?b = "replaceAll (CHR ''<'') ''&lt;'' ?a"
  let ?c = "replaceAll (CHR ''>'') ''&gt;'' ?b"
  have b: "CHR ''<'' \<notin> set ?b" by (rule replaceAll_removes) simp
  have c: "CHR ''>'' \<notin> set ?c" by (rule replaceAll_removes) simp
  have c': "CHR ''<'' \<notin> set ?c" using b by (rule replaceAll_keeps_out) simp
  show "CHR ''<'' \<notin> set (escapeHtml s)"
    unfolding escapeHtml_def using c' by (rule replaceAll_keeps_out) simp
  show "CHR ''>'' \<notin> set (escapeHtml s)"
    unfolding escapeHtml_def using c by (rule replaceAll_keeps_out) simp
  show "CHR 0x22 \<notin> set (escapeHtml s)"
    unfolding escapeHtml_def by (rule replaceAll_removes) simp
qed

text \<open>
  Claim C6. \<open>escapeHtml\<close> returns a string unchanged when it holds none of
  \<open>&\<close>, \<open><\<close>, \<open>>\<close> and the double quote, so it is idempotent on such strings; and
  \<open>escapeHtml("<script>")\<close> is \<open>&lt;script&gt;\<close>.
\<close>

theorem escapeHtml_identity:
  "((\<forall>c \<in> set s. c \<notin> {CHR ''&'', CHR ''<'', CHR ''>'', CHR 0x22}) \<longrightarrow>
      escapeHtml s = s \<and> escapeHtml (escapeHtml s) = escapeHtml s) \<and>
   escapeHtml ''<script>'' = ''&lt;script&gt;''"
proof (intro conjI impI)
  assume a: "\<forall>c \<in> set s. c \<notin> {CHR ''&'', CHR ''<'', CHR ''>'', CHR 0x22}"
  then have "CHR ''&'' \<notin> set s" "CHR ''<'' \<notin> set s" "CHR ''>'' \<notin> set s" "CHR 0x22 \<notin> set s"
    by auto
  then show "escapeHtml s = s" by (rule escapeHtml_plain)
  then show "escapeHtml (escapeHtml s) = escapeHtml s" by simp
next
  show "escapeHtml ''<script>'' = ''&lt;script&gt;''"
    by (simp add: escapeHtml_def replaceAll_def)
qed

theorem escapeHtml_identity_witness:
  "escapeHtml ''Ada Lovelace, 36'' = ''Ada Lovelace, 36'' \<and>
   escapeHtml (escapeHtml ''Ada Lovelace, 36'') = escapeHtml ''Ada Lovelace, 36''"
proof -
  have h: "\<forall>c \<in> set ''Ada Lovelace, 36''. c \<notin> {CHR ''&'', CHR ''<'', CHR ''>'', CHR 0x22}"
    by simp
  show ?thesis using escapeHtml_identity [of "''Ada Lovelace, 36''"] h by blast
qed

subsection \<open>The message the mailer builds\<close>

lemma trim_core:
  assumes a: "\<forall>c \<in> set a. isSpace c" and b: "\<forall>c \<in> set b. isSpace c"
    and core: "core \<noteq> []" "\<not> isSpace (hd core)" "\<not> isSpace (last core)"
  shows "trim (a @ core @ b) = core"
proof -
  have front: "dropWhile isSpace (a @ core @ b) = core @ b"
  proof -
    have "\<And>x. x \<in> set a \<Longrightarrow> isSpace x"
      using a by simp
    then have "dropWhile isSpace (a @ core @ b) = dropWhile isSpace (core @ b)"
      by (rule dropWhile_append2)
    also have "\<dots> = core @ b"
      using core by (cases core) simp_all
    finally show ?thesis .
  qed
  have rear: "dropWhile isSpace (rev b @ rev core) = rev core"
  proof -
    have "\<And>x. x \<in> set (rev b) \<Longrightarrow> isSpace x"
      using b by simp
    then have "dropWhile isSpace (rev b @ rev core) = dropWhile isSpace (rev core)"
      by (rule dropWhile_append2)
    also have "\<dots> = rev core"
      using core by (cases "rev core") (simp_all add: hd_rev)
    finally show ?thesis .
  qed
  show ?thesis by (simp add: trim_def front rear)
qed

lemma mail_html_trimmed:
  "mail_html (snd (sendContactEmail d oc)) =
     ''<p><strong>From:</strong> '' @ escapeHtml (name d) @ '' &lt;'' @ escapeHtml (email d) @ '' '' @
     ifPhone (phone d) (\<lambda>p. ''&lt;'' @ escapeHtml p) [] @
     ''&gt;</p>'' @ [CHR 0x0A] @ ''      <hr>'' @ [CHR 0x0A] @ ''      <p>'' @
     replaceAll (CHR 0x0A) ''<br>'' (escapeHtml (message d)) @ ''</p>''"
proof -
  let ?mid = "escapeHtml (name d) @ '' &lt;'' @ escapeHtml (email d) @ '' '' @
     ifPhone (phone d) (\<lambda>p. ''&lt;'' @ escapeHtml p) [] @
     ''&gt;</p>'' @ [CHR 0x0A] @ ''      <hr>'' @ [CHR 0x0A] @ ''      <p>'' @
     replaceAll (CHR 0x0A) ''<br>'' (escapeHtml (message d))"
  let ?core = "''<p><strong>From:</strong> '' @ ?mid @ ''</p>''"
  let ?a = "CHR 0x0A # ''      ''"
  let ?b = "CHR 0x0A # ''    ''"
  have "mail_html (snd (sendContactEmail d oc)) = trim (?a @ ?core @ ?b)"
    by (simp add: sendContactEmail_def Let_def)
  also have "\<dots> = ?core"
    by (rule trim_core) (simp_all add: isSpace_def)
  finally show ?thesis by simp
qed

text \<open>
  The fields of the message, for every input. \<open>from\<close> is the visitor's name between
  double quotes, as it came, followed by the origin's SMTP user between angle
  brackets, and the \<open>email\<close> field has no part in it; the recipient is \<open>toEmail\<close>;
  the subject holds the origin's name; there is a plain-text and an HTML part; in the
  HTML part each of \<open>name\<close>, \<open>email\<close>, \<open>phone\<close> and \<open>message\<close> goes through
  \<open>escapeHtml\<close> on its own before the parts are joined (so none of them brings a
  \<open><\<close>, a \<open>>\<close> or a double quote), and the line feeds of the escaped message become
  \<open><br>\<close>; the plain-text part ends with the message as it came.
\<close>

lemma mail_message_fields:
  "mail_from (snd (sendContactEmail d oc)) =
      [CHR 0x22] @ name d @ [CHR 0x22] @ '' <'' @ user (smtp oc) @ ''>'' \<and>
   mail_from (snd (sendContactEmail (d\<lparr>email := other\<rparr>) oc)) = mail_from (snd (sendContactEmail d oc)) \<and>
   mail_to (snd (sendContactEmail d oc)) = toEmail oc \<and>
   mail_subject (snd (sendContactEmail d oc)) = ''[Contact|Kontakt] - '' @ cfg_name oc @ '' - '' @ name d \<and>
   mail_text (snd (sendContactEmail d oc)) =
      ''From: '' @ name d @ '' <'' @ email d @ ''> '' @
      ifPhone (phone d) (\<lambda>p. ''<'' @ p @ ''>'') [] @ [CHR 0x0A, CHR 0x0A] @ message d \<and>
   mail_html (snd (sendContactEmail d oc)) =
      ''<p><strong>From:</strong> '' @ escapeHtml (name d) @ '' &lt;'' @ escapeHtml (email d) @ '' '' @
      ifPhone (phone d) (\<lambda>p. ''&lt;'' @ escapeHtml p) [] @
      ''&gt;</p>'' @ [CHR 0x0A] @ ''      <hr>'' @ [CHR 0x0A] @ ''      <p>'' @
      replaceAll (CHR 0x0A) ''<br>'' (escapeHtml (message d)) @ ''</p>'' \<and>
   CHR 0x0A \<notin> set (replaceAll (CHR 0x0A) ''<br>'' (escapeHtml (message d))) \<and>
   set (escapeHtml x) \<inter> {CHR ''<'', CHR ''>'', CHR 0x22} = {}"
proof (intro conjI)
  show "mail_html (snd (sendContactEmail d oc)) =
      ''<p><strong>From:</strong> '' @ escapeHtml (name d) @ '' &lt;'' @ escapeHtml (email d) @ '' '' @
      ifPhone (phone d) (\<lambda>p. ''&lt;'' @ escapeHtml p) [] @
      ''&gt;</p>'' @ [CHR 0x0A] @ ''      <hr>'' @ [CHR 0x0A] @ ''      <p>'' @
      replaceAll (CHR 0x0A) ''<br>'' (escapeHtml (message d)) @ ''</p>''"
    by (rule mail_html_trimmed)
  show "CHR 0x0A \<notin> set (replaceAll (CHR 0x0A) ''<br>'' (escapeHtml (message d)))"
    by (rule replaceAll_removes) simp
  show "set (escapeHtml x) \<inter> {CHR ''<'', CHR ''>'', CHR 0x22} = {}"
    using escapeHtml_clean [of x] by simp
qed (simp_all add: sendContactEmail_def Let_def)

text \<open>
  The message for a visitor whose name holds markup and whose message holds a line
  feed and an ampersand.
\<close>

lemma mail_message_fields_example:
  "snd (sendContactEmail
      \<lparr>email = ''ann@example.org'', name = ''Ann <b>'',
       message = ''Hi'' @ [CHR 0x0A] @ ''there & bye'', phone = Some ''123''\<rparr> shop_config) =
    \<lparr>mail_from = [CHR 0x22] @ ''Ann <b>'' @ [CHR 0x22] @ '' <relay@shop.example>'',
     mail_to = ''owner@shop.example'',
     mail_subject = ''[Contact|Kontakt] - Shop - Ann <b>'',
     mail_text = ''From: Ann <b> <ann@example.org> <123>'' @ [CHR 0x0A, CHR 0x0A] @
                 ''Hi'' @ [CHR 0x0A] @ ''there & bye'',
     mail_html = ''<p><strong>From:</strong> Ann &lt;b&gt; &lt;ann@example.org &lt;123&gt;</p>'' @
                 [CHR 0x0A] @ ''      <hr>'' @ [CHR 0x0A] @
                 ''      <p>Hi<br>there &amp; bye</p>''\<rparr>"
proof -
  let ?d = "\<lparr>email = ''ann@example.org'', name = ''Ann <b>'',
       message = ''Hi'' @ [CHR 0x0A] @ ''there & bye'', phone = Some ''123''\<rparr>"
  note f = mail_message_fields [of ?d shop_config "''x''" "[]"]
  have "mail_from (snd (sendContactEmail ?d shop_config)) =
      [CHR 0x22] @ ''Ann <b>'' @ [CHR 0x22] @ '' <relay@shop.example>''"
    using f by (simp add: shop_config_def)
  moreover have "mail_to (snd (sendContactEmail ?d shop_config)) = ''owner@shop.example''"
    using f by (simp add: shop_config_def)
  moreover have "mail_subject (snd (sendContactEmail ?d shop_config)) =
      ''[Contact|Kontakt] - Shop - Ann <b>''"
    using f by (simp add: shop_config_def)
  moreover have "mail_text (snd (sendContactEmail ?d shop_config)) =
      ''From: Ann <b> <ann@example.org> <123>'' @ [CHR 0x0A, CHR 0x0A] @
                 ''Hi'' @ [CHR 0x0A] @ ''there & bye''"
    using f by (simp add: ifPhone_def)
  moreover have "mail_html (snd (sendContactEmail ?d shop_config)) =
      ''<p><strong>From:</strong> Ann &lt;b&gt; &lt;ann@example.org &lt;123&gt;</p>'' @
                 [CHR 0x0A] @ ''      <hr>'' @ [CHR 0x0A] @
                 ''      <p>Hi<br>there &amp; bye</p>''"
    using f by (simp add: ifPhone_def escapeHtml_def replaceAll_def)
  ultimately show ?thesis
    by (cases "snd (sendContactEmail ?d shop_config)") simp
qed

text \<open>
  Claim C7, at the input where the source departs from it. The claim gives the
  \<open>from\<close> field the origin's SMTP user as its address and never the visitor's, and
  the source writes the SMTP user between the angle brackets to that end; but it
  puts the name between the double quotes unescaped, while it escapes the same
  fields for the HTML part. The validator accepts \<open>quoting_body\<close>, the handler
  answers 200 and calls the mailer with it, and the \<open>from\<close> field it builds is
  \<open>"a" <ann@example.org>, "b" <relay@shop.example>\<close>: the name has closed its own
  quotes, and the first address between angle brackets is the visitor's \<open>email\<close>.
\<close>

theorem mail_from_address_taken_from_name:
  "validateBody quoting_body \<and>
   status (fst (fetch shop_origins (\<lambda>_. True) 1000
      ((request_from ''POST'' ''/api/send'' (Some ''https://shop.example''))
         \<lparr>jsonBody := Some quoting_body\<rparr>) idle_state)) = 200 \<and>
   mailerCalls (snd (fetch shop_origins (\<lambda>_. True) 1000
      ((request_from ''POST'' ''/api/send'' (Some ''https://shop.example''))
         \<lparr>jsonBody := Some quoting_body\<rparr>) idle_state)) =
     [(asContactFormData quoting_body, shop_config)] \<and>
   email (asContactFormData quoting_body) = ''ann@example.org'' \<and>
   user (smtp shop_config) = ''relay@shop.example'' \<and>
   mail_from (snd (sendContactEmail (asContactFormData quoting_body) shop_config)) =
     [CHR 0x22] @ ''a'' @ [CHR 0x22] @
     '' <'' @ email (asContactFormData quoting_body) @ ''>, '' @
     [CHR 0x22] @ ''b'' @ [CHR 0x22] @
     '' <'' @ user (smtp shop_config) @ ''>''"
proof (intro conjI)
  note defs = fetch_def shop_origins_def request_from_def idle_state_def getOriginConfig_def
    clientIp_def isRateLimited_def RATE_LIMIT_def RATE_WINDOW_MS_def validateBody_def
    quoting_body_def quoting_name_def str_includes_def Let_def json_def
  show "validateBody quoting_body"
    by (simp add: defs)
  show "status (fst (fetch shop_origins (\<lambda>_. True) 1000
      ((request_from ''POST'' ''/api/send'' (Some ''https://shop.example''))
         \<lparr>jsonBody := Some quoting_body\<rparr>) idle_state)) = 200"
    by (simp add: defs)
  show "mailerCalls (snd (fetch shop_origins (\<lambda>_. True) 1000
      ((request_from ''POST'' ''/api/send'' (Some ''https://shop.example''))
         \<lparr>jsonBody := Some quoting_body\<rparr>) idle_state)) =
     [(asContactFormData quoting_body, shop_config)]"
    by (simp add: defs)
  show "email (asContactFormData quoting_body) = ''ann@example.org''"
    by (simp add: asContactFormData_def quoting_body_def)
  show "user (smtp shop_config) = ''relay@shop.example''"
    by (simp add: shop_config_def)
  show "mail_from (snd (sendContactEmail (asContactFormData quoting_body) shop_config)) =
     [CHR 0x22] @ ''a'' @ [CHR 0x22] @
     '' <'' @ email (asContactFormData quoting_body) @ ''>, '' @
     [CHR 0x22] @ ''b'' @ [CHR 0x22] @
     '' <'' @ user (smtp shop_config) @ ''>''"
    by (simp add: sendContactEmail_def asContactFormData_def quoting_body_def quoting_name_def
        shop_config_def Let_def)
qed

text \<open>The same \<open>from\<close> field written out, for the request that was answered 200.\<close>

theorem mail_from_address_taken_from_name_witness:
  "status (fst (fetch shop_origins (\<lambda>_. True) 1000
      ((request_from ''POST'' ''/api/send'' (Some ''https://shop.example''))
         \<lparr>jsonBody := Some quoting_body\<rparr>) idle_state)) = 200 \<and>
   mail_from (snd (sendContactEmail (asContactFormData quoting_body) shop_config)) =
     [CHR 0x22] @ ''a'' @ [CHR 0x22] @ '' <ann@example.org>, '' @
     [CHR 0x22] @ ''b'' @ [CHR 0x22] @ '' <relay@shop.example>''"
  using mail_from_address_taken_from_name by simp

subsection \<open>The request handler\<close>

lemma fetch_shape:
  "(req_method req = ''OPTIONS'' \<and>
      fst (fetch origins delivers now req st) =
        \<lparr>status = 204, headers = corsHeaders origins (originHeader req), body = None\<rparr>) \<or>
   (req_method req \<noteq> ''OPTIONS'' \<and>
      (\<exists>d s. s \<in> {404, 403, 429, 400, 200, 500} \<and>
         fst (fetch origins delivers now req st) = json d s (corsHeaders origins (originHeader req))))"
  by (auto simp: fetch_def Let_def split: option.splits prod.splits)

lemma corsHeaders_lookup:
  "map_of (corsHeaders origins origin) ''Access-Control-Allow-Origin'' =
     Some (case origin of None \<Rightarrow> [] | Some orig \<Rightarrow> if orig \<in> dom origins then orig else [])"
  "map_of (corsHeaders origins origin) ''Access-Control-Allow-Methods'' = Some ''POST, OPTIONS''"
  "map_of (corsHeaders origins origin) ''Content-Type'' = None"
  by (auto simp: corsHeaders_def isAllowedOrigin_def Let_def dom_def split: option.splits)

lemma fetch_headers:
  "headers (fst (fetch origins delivers now req st)) = corsHeaders origins (originHeader req) \<or>
   headers (fst (fetch origins delivers now req st)) =
     (''Content-Type'', ''application/json'') # corsHeaders origins (originHeader req)"
  using fetch_shape [of req origins delivers now st] by (auto simp: json_def)

text \<open>
  Claim C5. On every response of \<open>fetch\<close>, \<open>Access-Control-Allow-Origin\<close> is the
  request's \<open>Origin\<close> when that is a key of the configured origins and the empty
  string otherwise, also when the header is absent (for a non-empty \<open>Origin\<close> the
  header equals it iff it is a key); \<open>Access-Control-Allow-Methods\<close> is
  \<open>POST, OPTIONS\<close>; every response carries all the CORS headers, whichever of the
  statuses 204, 404, 403, 429, 400, 200, 500 it has; and an \<open>OPTIONS\<close> request
  gets 204 and no body on any path.
\<close>

theorem cors_on_every_response:
  "map_of (headers (fst (fetch origins delivers now req st))) ''Access-Control-Allow-Origin'' =
     Some (case originHeader req of
             None \<Rightarrow> []
           | Some orig \<Rightarrow> if orig \<in> dom origins then orig else []) \<and>
   (originHeader req = Some known \<and> known \<noteq> [] \<longrightarrow>
      (map_of (headers (fst (fetch origins delivers now req st))) ''Access-Control-Allow-Origin'' =
         Some known) = (known \<in> dom origins)) \<and>
   map_of (headers (fst (fetch origins delivers now req st))) ''Access-Control-Allow-Methods'' =
     Some ''POST, OPTIONS'' \<and>
   set (corsHeaders origins (originHeader req)) \<subseteq> set (headers (fst (fetch origins delivers now req st))) \<and>
   status (fst (fetch origins delivers now req st)) \<in> {204, 404, 403, 429, 400, 200, 500} \<and>
   (req_method req = ''OPTIONS'' \<longrightarrow>
      status (fst (fetch origins delivers now req st)) = 204 \<and>
      body (fst (fetch origins delivers now req st)) = None)"
proof (intro conjI impI)
  let ?r = "fst (fetch origins delivers now req st)"
  let ?cors = "corsHeaders origins (originHeader req)"
  note hs = fetch_headers [of origins delivers now req st]
  show "map_of (headers ?r) ''Access-Control-Allow-Origin'' =
     Some (case originHeader req of
             None \<Rightarrow> []
           | Some orig \<Rightarrow> if orig \<in> dom origins then orig else [])"
    using hs corsHeaders_lookup(1) [of origins "originHeader req"] by auto
  then show "originHeader req = Some known \<and> known \<noteq> [] \<Longrightarrow>
      (map_of (headers ?r) ''Access-Control-Allow-Origin'' = Some known) = (known \<in> dom origins)"
    by auto
  show "map_of (headers ?r) ''Access-Control-Allow-Methods'' = Some ''POST, OPTIONS''"
    using hs corsHeaders_lookup(2) [of origins "originHeader req"] by auto
  show "set ?cors \<subseteq> set (headers ?r)"
    using hs by auto
  show "status ?r \<in> {204, 404, 403, 429, 400, 200, 500}"
    using fetch_shape [of req origins delivers now st] by (auto simp: json_def)
  assume "req_method req = ''OPTIONS''"
  then show "status ?r = 204" "body ?r = None"
    using fetch_shape [of req origins delivers now st] by auto
qed

text \<open>
  A preflight from the configured origin, a POST from an unknown origin, a GET with
  no \<open>Origin\<close>, and a POST from the configured origin whose delivery fails.
\<close>

theorem cors_on_every_response_witness:
  "status (fst (fetch shop_origins (\<lambda>_. True) 1000
      (request_from ''OPTIONS'' ''/anything'' (Some ''https://shop.example'')) idle_state)) = 204 \<and>
   body (fst (fetch shop_origins (\<lambda>_. True) 1000
      (request_from ''OPTIONS'' ''/anything'' (Some ''https://shop.example'')) idle_state)) = None \<and>
   map_of (headers (fst (fetch shop_origins (\<lambda>_. True) 1000
      (request_from ''OPTIONS'' ''/anything'' (Some ''https://shop.example'')) idle_state)))
      ''Access-Control-Allow-Origin'' = Some ''https://shop.example'' \<and>
   map_of (headers (fst (fetch shop_origins (\<lambda>_. True) 1000
      (request_from ''POST'' ''/api/send'' (Some ''https://evil.example'')) idle_state)))
      ''Access-Control-Allow-Origin'' = Some [] \<and>
   map_of (headers (fst (fetch shop_origins (\<lambda>_. True) 1000
      (request_from ''GET'' ''/'' None) idle_state)))
      ''Access-Control-Allow-Origin'' = Some [] \<and>
   map_of (headers (fst (fetch shop_origins (\<lambda>_. False) 1000
      (request_from ''POST'' ''/api/send'' (Some ''https://shop.example'')) idle_state)))
      ''Access-Control-Allow-Origin'' = Some ''https://shop.example'' \<and>
   status (fst (fetch shop_origins (\<lambda>_. False) 1000
      (request_from ''POST'' ''/api/send'' (Some ''https://shop.example'')) idle_state)) = 500"
proof -
  let ?pre = "request_from ''OPTIONS'' ''/anything'' (Some ''https://shop.example'')"
  let ?evil = "request_from ''POST'' ''/api/send'' (Some ''https://evil.example'')"
  let ?get = "request_from ''GET'' ''/'' None"
  let ?good = "request_from ''POST'' ''/api/send'' (Some ''https://shop.example'')"
  let ?ok = "\<lambda>_ :: SmtpConfig \<times> Mail. True"
  let ?down = "\<lambda>_ :: SmtpConfig \<times> Mail. False"
  note defs = fetch_def shop_origins_def request_from_def idle_state_def getOriginConfig_def
    clientIp_def isRateLimited_def RATE_LIMIT_def RATE_WINDOW_MS_def validateBody_def ada_body_def
    str_includes_def Let_def json_def
  have opt: "req_method ?pre = ''OPTIONS''" by (simp add: request_from_def)
  have o1: "originHeader ?pre = Some ''https://shop.example''"
    and o2: "originHeader ?evil = Some ''https://evil.example''"
    and o3: "originHeader ?get = None"
    and o4: "originHeader ?good = Some ''https://shop.example''"
    by (simp_all add: request_from_def)
  have d1: "''https://shop.example'' \<in> dom shop_origins"
    and d2: "''https://evil.example'' \<notin> dom shop_origins"
    by (simp_all add: shop_origins_def)
  have "status (fst (fetch shop_origins ?ok 1000 ?pre idle_state)) = 204 \<and>
      body (fst (fetch shop_origins ?ok 1000 ?pre idle_state)) = None"
    using cors_on_every_response [where req = ?pre and origins = shop_origins and delivers = ?ok
        and now = 1000 and st = idle_state] opt
    by blast
  moreover have "map_of (headers (fst (fetch shop_origins ?ok 1000 ?pre idle_state)))
      ''Access-Control-Allow-Origin'' = Some ''https://shop.example''"
    using cors_on_every_response [where req = ?pre and origins = shop_origins and delivers = ?ok
        and now = 1000 and st = idle_state] o1 d1
    by simp
  moreover have "map_of (headers (fst (fetch shop_origins ?ok 1000 ?evil idle_state)))
      ''Access-Control-Allow-Origin'' = Some []"
    using cors_on_every_response [where req = ?evil and origins = shop_origins and delivers = ?ok
        and now = 1000 and st = idle_state] o2 d2
    by simp
  moreover have "map_of (headers (fst (fetch shop_origins ?ok 1000 ?get idle_state)))
      ''Access-Control-Allow-Origin'' = Some []"
    using cors_on_every_response [where req = ?get and origins = shop_origins and delivers = ?ok
        and now = 1000 and st = idle_state] o3
    by simp
  moreover have "map_of (headers (fst (fetch shop_origins ?down 1000 ?good idle_state)))
      ''Access-Control-Allow-Origin'' = Some ''https://shop.example''"
    using cors_on_every_response [where req = ?good and origins = shop_origins and delivers = ?down
        and now = 1000 and st = idle_state] o4 d1
    by simp
  moreover have "status (fst (fetch shop_origins ?down 1000 ?good idle_state)) = 500"
    by (simp add: defs)
  ultimately show ?thesis by simp
qed

text \<open>
  Claim C1. A \<open>POST /api/send\<close> whose \<open>Origin\<close> resolves to no configuration gets
  403 and leaves the whole state as it was: no mailer call and an untouched rate
  limiter, the origin check coming first. A request the rate limiter rejects gets 429
  and no mailer call. A 200 response comes with exactly one new mailer call, made
  with the configuration resolved from the request's \<open>Origin\<close>.
\<close>

theorem dispatcher_gates:
  "(req_method req = ''POST'' \<and> pathname req = ''/api/send'' \<and>
    getOriginConfig origins (originHeader req) = None \<longrightarrow>
      status (fst (fetch origins delivers now req st)) = 403 \<and>
      snd (fetch origins delivers now req st) = st) \<and>
   (req_method req = ''POST'' \<and> pathname req = ''/api/send'' \<and>
    getOriginConfig origins (originHeader req) \<noteq> None \<and>
    fst (isRateLimited now (clientIp req) (rateLimitMap st)) \<longrightarrow>
      status (fst (fetch origins delivers now req st)) = 429 \<and>
      mailerCalls (snd (fetch origins delivers now req st)) = mailerCalls st) \<and>
   (status (fst (fetch origins delivers now req st)) = 403 \<longrightarrow>
      snd (fetch origins delivers now req st) = st) \<and>
   (status (fst (fetch origins delivers now req st)) = 429 \<longrightarrow>
      mailerCalls (snd (fetch origins delivers now req st)) = mailerCalls st) \<and>
   (status (fst (fetch origins delivers now req st)) = 200 \<longrightarrow>
      (\<exists>oc b. getOriginConfig origins (originHeader req) = Some oc \<and> jsonBody req = Some b \<and>
         mailerCalls (snd (fetch origins delivers now req st)) =
           mailerCalls st @ [(asContactFormData b, oc)]))"
  by (auto simp: fetch_def Let_def json_def split: option.splits prod.splits if_splits)

text \<open>
  An unknown origin, a client already at the cap, a first request, and six requests
  in one window from one client: five reach the mailer, the sixth gets 429.
\<close>

theorem dispatcher_gates_witness:
  "status (fst (fetch shop_origins (\<lambda>_. True) 1000
      (request_from ''POST'' ''/api/send'' (Some ''https://evil.example'')) idle_state)) = 403 \<and>
   snd (fetch shop_origins (\<lambda>_. True) 1000
      (request_from ''POST'' ''/api/send'' (Some ''https://evil.example'')) idle_state) = idle_state \<and>
   status (fst (fetch shop_origins (\<lambda>_. True) 1000
      (request_from ''POST'' ''/api/send'' (Some ''https://shop.example''))
      (idle_state\<lparr>rateLimitMap := [''203.0.113.7'' \<mapsto> \<lparr>count = 5, resetAt = 2000\<rparr>]\<rparr>))) = 429 \<and>
   mailerCalls (snd (fetch shop_origins (\<lambda>_. True) 1000
      (request_from ''POST'' ''/api/send'' (Some ''https://shop.example''))
      (idle_state\<lparr>rateLimitMap := [''203.0.113.7'' \<mapsto> \<lparr>count = 5, resetAt = 2000\<rparr>]\<rparr>))) = [] \<and>
   status (fst (fetch shop_origins (\<lambda>_. True) 1000
      (request_from ''POST'' ''/api/send'' (Some ''https://shop.example'')) idle_state)) = 200 \<and>
   mailerCalls (snd (fetch shop_origins (\<lambda>_. True) 1000
      (request_from ''POST'' ''/api/send'' (Some ''https://shop.example'')) idle_state)) =
     [(ada_data, shop_config)] \<and>
   map status (fst (serve shop_origins (\<lambda>_. True)
      (map (\<lambda>t. (t, request_from ''POST'' ''/api/send'' (Some ''https://shop.example'')))
         [1000, 1001, 1002, 1003, 1004, 1005]) idle_state)) = [200, 200, 200, 200, 200, 429] \<and>
   length (mailerCalls (snd (serve shop_origins (\<lambda>_. True)
      (map (\<lambda>t. (t, request_from ''POST'' ''/api/send'' (Some ''https://shop.example'')))
         [1000, 1001, 1002, 1003, 1004, 1005]) idle_state))) = 5"
proof -
  let ?evil = "request_from ''POST'' ''/api/send'' (Some ''https://evil.example'')"
  let ?good = "request_from ''POST'' ''/api/send'' (Some ''https://shop.example'')"
  let ?busy = "idle_state\<lparr>rateLimitMap := [''203.0.113.7'' \<mapsto> \<lparr>count = 5, resetAt = 2000\<rparr>]\<rparr>"
  let ?ok = "\<lambda>_ :: SmtpConfig \<times> Mail. True"
  note defs = fetch_def shop_origins_def request_from_def idle_state_def getOriginConfig_def
    clientIp_def isRateLimited_def RATE_LIMIT_def RATE_WINDOW_MS_def validateBody_def ada_body_def
    str_includes_def Let_def json_def
  have h403: "req_method ?evil = ''POST'' \<and> pathname ?evil = ''/api/send'' \<and>
      getOriginConfig shop_origins (originHeader ?evil) = None"
    by (simp add: request_from_def getOriginConfig_def shop_origins_def)
  have h429: "req_method ?good = ''POST'' \<and> pathname ?good = ''/api/send'' \<and>
      getOriginConfig shop_origins (originHeader ?good) \<noteq> None \<and>
      fst (isRateLimited 1000 (clientIp ?good) (rateLimitMap ?busy))"
    by (simp add: defs)
  have h200: "status (fst (fetch shop_origins ?ok 1000 ?good idle_state)) = 200"
    by (simp add: defs)
  have cfg: "getOriginConfig shop_origins (originHeader ?good) = Some shop_config"
    and bdy: "jsonBody ?good = Some ada_body"
    and st0: "mailerCalls idle_state = []"
    by (simp_all add: request_from_def getOriginConfig_def shop_origins_def idle_state_def)
  have dat: "asContactFormData ada_body = ada_data"
    by (simp add: asContactFormData_def ada_body_def ada_data_def)
  have a: "status (fst (fetch shop_origins ?ok 1000 ?evil idle_state)) = 403 \<and>
      snd (fetch shop_origins ?ok 1000 ?evil idle_state) = idle_state"
    using dispatcher_gates [where req = ?evil and origins = shop_origins and delivers = ?ok
        and now = 1000 and st = idle_state] h403
    by blast
  have b: "status (fst (fetch shop_origins ?ok 1000 ?good ?busy)) = 429 \<and>
      mailerCalls (snd (fetch shop_origins ?ok 1000 ?good ?busy)) = mailerCalls ?busy"
    using dispatcher_gates [where req = ?good and origins = shop_origins and delivers = ?ok
        and now = 1000 and st = ?busy] h429
    by blast
  have "\<exists>oc b. getOriginConfig shop_origins (originHeader ?good) = Some oc \<and> jsonBody ?good = Some b \<and>
      mailerCalls (snd (fetch shop_origins ?ok 1000 ?good idle_state)) =
        mailerCalls idle_state @ [(asContactFormData b, oc)]"
    using dispatcher_gates [where req = ?good and origins = shop_origins and delivers = ?ok
        and now = 1000 and st = idle_state] h200
    by blast
  then have c: "mailerCalls (snd (fetch shop_origins ?ok 1000 ?good idle_state)) =
      [(ada_data, shop_config)]"
    using cfg bdy st0 dat by auto
  have run: "map status (fst (serve shop_origins ?ok
        (map (\<lambda>t. (t, ?good)) [1000, 1001, 1002, 1003, 1004, 1005]) idle_state)) =
        [200, 200, 200, 200, 200, 429]"
    "length (mailerCalls (snd (serve shop_origins ?ok
        (map (\<lambda>t. (t, ?good)) [1000, 1001, 1002, 1003, 1004, 1005]) idle_state))) = 5"
    by (simp_all add: defs)
  have busy0: "mailerCalls ?busy = []" by (simp add: idle_state_def)
  show ?thesis using a b c h200 run busy0 by simp
qed

subsection \<open>Configuration loading\<close>

text \<open>What a successful pass of the loop says about the entry it read first.\<close>

lemma loadOrigins_Inr_Cons:
  assumes "loadOrigins ((origin, oc) # rest) acc = Inr os"
  shows "oc \<noteq> JNull \<and> truthy (getprop oc ''toEmail'') \<and> typeof (getprop oc ''toEmail'') = TString \<and>
   (\<exists>s. getprop oc ''smtp'' = Some s \<and> typeof (Some s) = TObject \<and>
      truthy (getprop s ''host'') \<and> truthy (getprop s ''user'') \<and> truthy (getprop s ''pass'') \<and>
      loadOrigins rest
        (AList.update origin
           \<lparr>st_name = getprop oc ''name'',
            st_toEmail = getprop oc ''toEmail'',
            st_smtp =
              \<lparr>st_host = getprop s ''host'',
               st_port = nullish (getprop s ''port'') (Some (JNum 587)),
               st_secure = nullish (getprop s ''secure'') (Some (JBool False)),
               st_user = getprop s ''user'',
               st_pass = getprop s ''pass''\<rparr>\<rparr>
           acc) = Inr os)"
proof -
  have 1: "oc \<noteq> JNull"
    using assms by (auto simp del: truthy.simps typeof.simps getprop.simps)
  have 2: "truthy (getprop oc ''toEmail'') \<and> typeof (getprop oc ''toEmail'') = TString"
    using assms 1 by (simp del: truthy.simps typeof.simps getprop.simps split: if_splits)
  obtain s where 3: "getprop oc ''smtp'' = Some s"
    using assms 1 2 by (cases "getprop oc ''smtp''") (simp_all del: truthy.simps typeof.simps getprop.simps)
  have 4: "truthy (Some s) \<and> typeof (Some s) = TObject"
    using assms 1 2 3 by (simp del: truthy.simps typeof.simps getprop.simps split: if_splits)
  have 5: "truthy (getprop s ''host'') \<and> truthy (getprop s ''user'') \<and> truthy (getprop s ''pass'')"
    using assms 1 2 3 4 by (simp del: truthy.simps typeof.simps getprop.simps split: if_splits)
  show ?thesis
    using assms 1 2 3 4 5 by (simp del: truthy.simps typeof.simps getprop.simps)
qed


lemma loadOrigins_checks_entries:
  "loadOrigins kvs acc = Inr os \<Longrightarrow> (origin, oc) \<in> set kvs \<Longrightarrow>
   truthy (getprop oc ''toEmail'') \<and> typeof (getprop oc ''toEmail'') = TString \<and>
   (\<exists>s. getprop oc ''smtp'' = Some s \<and> typeof (Some s) = TObject \<and>
      truthy (getprop s ''host'') \<and> truthy (getprop s ''user'') \<and> truthy (getprop s ''pass''))"
proof (induction kvs arbitrary: acc)
  case Nil
  then show ?case by simp
next
  case (Cons kv rest)
  obtain k v where kv: "kv = (k, v)" by (cases kv)
  note step = loadOrigins_Inr_Cons [OF Cons.prems(1) [unfolded kv]]
  show ?case
  proof (cases "(origin, oc) = (k, v)")
    case True
    with step show ?thesis by blast
  next
    case False
    with Cons.prems(2) kv have mem: "(origin, oc) \<in> set rest" by auto
    from step obtain acc' where "loadOrigins rest acc' = Inr os" by blast
    then show ?thesis using mem by (rule Cons.IH)
  qed
qed

lemma set_update_subset: "set (AList.update k v al) \<subseteq> insert (k, v) (set al)"
  by (induction al) auto

text \<open>
  Every origin the loop stores has a \<open>port\<close> and a \<open>secure\<close> that are neither
  \<open>undefined\<close> nor \<open>null\<close>.
\<close>

lemma nullish_defined: "d \<noteq> None \<Longrightarrow> d \<noteq> Some JNull \<Longrightarrow> nullish a d \<noteq> None \<and> nullish a d \<noteq> Some JNull"
  by (simp add: nullish_def)

lemma nullish_absent: "nullish None d = d" "nullish (Some JNull) d = d"
  by (simp_all add: nullish_def)

lemma loadOrigins_defaults:
  "loadOrigins kvs acc = Inr os \<Longrightarrow>
   \<forall>(k, c) \<in> set acc. st_port (st_smtp c) \<notin> {None, Some JNull} \<and> st_secure (st_smtp c) \<notin> {None, Some JNull} \<Longrightarrow>
   \<forall>(k, c) \<in> set os. st_port (st_smtp c) \<notin> {None, Some JNull} \<and> st_secure (st_smtp c) \<notin> {None, Some JNull}"
proof (induction kvs arbitrary: acc)
  case Nil
  then show ?case by simp
next
  case (Cons kv rest)
  obtain k v where kv: "kv = (k, v)" by (cases kv)
  from loadOrigins_Inr_Cons [OF Cons.prems(1) [unfolded kv]]
  obtain s where rest: "loadOrigins rest
        (AList.update k
           \<lparr>st_name = getprop v ''name'',
            st_toEmail = getprop v ''toEmail'',
            st_smtp =
              \<lparr>st_host = getprop s ''host'',
               st_port = nullish (getprop s ''port'') (Some (JNum 587)),
               st_secure = nullish (getprop s ''secure'') (Some (JBool False)),
               st_user = getprop s ''user'',
               st_pass = getprop s ''pass''\<rparr>\<rparr>
           acc) = Inr os"
    by blast
  let ?c = "\<lparr>st_name = getprop v ''name'',
            st_toEmail = getprop v ''toEmail'',
            st_smtp =
              \<lparr>st_host = getprop s ''host'',
               st_port = nullish (getprop s ''port'') (Some (JNum 587)),
               st_secure = nullish (getprop s ''secure'') (Some (JBool False)),
               st_user = getprop s ''user'',
               st_pass = getprop s ''pass''\<rparr>\<rparr>"
  have new: "st_port (st_smtp ?c) \<notin> {None, Some JNull} \<and> st_secure (st_smtp ?c) \<notin> {None, Some JNull}"
    using nullish_defined [of "Some (JNum 587)" "getprop s ''port''"]
      nullish_defined [of "Some (JBool False)" "getprop s ''secure''"]
    by simp
  have "\<forall>(k', c) \<in> set (AList.update k ?c acc).
      st_port (st_smtp c) \<notin> {None, Some JNull} \<and> st_secure (st_smtp c) \<notin> {None, Some JNull}"
  proof (clarify)
    fix k' c assume "(k', c) \<in> set (AList.update k ?c acc)"
    then have "(k', c) = (k, ?c) \<or> (k', c) \<in> set acc"
      using set_update_subset [of k ?c acc] by blast
    then show "st_port (st_smtp c) \<notin> {None, Some JNull} \<and> st_secure (st_smtp c) \<notin> {None, Some JNull}"
      using new Cons.prems(2) by (elim disjE) (simp, fast)
  qed
  with rest show ?case by (rule Cons.IH)
qed

text \<open>The failures of \<open>loadConfig\<close> before and after the loop, and what a success means.\<close>

lemma loadConfig_fails_fast:
  "loadConfig None rd parse pn = Inl MissingConfigFileVariable"
  "loadConfig (Some []) rd parse pn = Inl MissingConfigFileVariable"
  "path \<noteq> [] \<Longrightarrow> rd path = None \<Longrightarrow> loadConfig (Some path) rd parse pn = Inl (FailedToRead path)"
  "path \<noteq> [] \<Longrightarrow> rd path = Some content \<Longrightarrow> parse content = None \<Longrightarrow>
     loadConfig (Some path) rd parse pn = Inl (InvalidJson path)"
  "path \<noteq> [] \<Longrightarrow> rd path = Some content \<Longrightarrow> parse content = Some v \<Longrightarrow> \<forall>kvs. v \<noteq> JObj kvs \<Longrightarrow>
     loadConfig (Some path) rd parse pn = Inl NotAJsonObject"
  "path \<noteq> [] \<Longrightarrow> rd path = Some content \<Longrightarrow> parse content = Some (JObj []) \<Longrightarrow>
     loadConfig (Some path) rd parse pn = Inl NoOrigins"
  by (simp_all add: loadConfig_def split: json.splits)

lemma loadConfig_Inr:
  assumes "loadConfig cp rd parse pn = Inr cfg"
  shows "\<exists>path content kvs. cp = Some path \<and> path \<noteq> [] \<and> rd path = Some content \<and>
      parse content = Some (JObj kvs) \<and> loadOrigins kvs [] = Inr (app_origins cfg) \<and>
      app_origins cfg \<noteq> []"
  using assms
  by (auto simp: loadConfig_def simp del: loadOrigins.simps
      split: option.splits if_splits json.splits sum.splits)

text \<open>
  Claim C9, at the input where the source departs from it. The claim counts \<open>name\<close>
  among the fields whose absence stops the start, as the declared type
  \<open>OriginConfigJson\<close> of the source does; the loop checks \<open>toEmail\<close>, \<open>smtp\<close>,
  \<open>smtp.host\<close>, \<open>smtp.user\<close> and \<open>smtp.pass\<close> but never \<open>name\<close>. A file whose only
  origin has no \<open>name\<close> loads: the origin is stored with \<open>name\<close> undefined (and
  with the defaults 587 and \<open>false\<close> for the absent \<open>port\<close> and \<open>secure\<close>).
\<close>

theorem loadConfig_accepts_missing_name:
  "loadConfig (Some ''/etc/relay/origins.json'')
     (\<lambda>path. if path = ''/etc/relay/origins.json'' then Some ''(file content)'' else None)
     (\<lambda>content. Some (JObj
        [(''https://shop.example'',
          JObj [(''toEmail'', JStr ''owner@shop.example''),
                (''smtp'', JObj [(''host'', JStr ''smtp.shop.example''),
                               (''user'', JStr ''relay@shop.example''),
                               (''pass'', JStr ''secret'')])])]))
     None =
   Inr \<lparr>app_port = 3000,
        app_origins =
          [(''https://shop.example'',
            \<lparr>st_name = None,
             st_toEmail = Some (JStr ''owner@shop.example''),
             st_smtp = \<lparr>st_host = Some (JStr ''smtp.shop.example''),
                        st_port = Some (JNum 587),
                        st_secure = Some (JBool False),
                        st_user = Some (JStr ''relay@shop.example''),
                        st_pass = Some (JStr ''secret'')\<rparr>\<rparr>)]\<rparr>"
  by (simp add: loadConfig_def nullish_def)

end
